theory Spec2Isabelle
  imports Complex_Main "HOL-Library.Word" "HOL-Library.AList"
begin

unbundle bit_operations_syntax

chapter \<open>The p2pool coordinator of rice: task server, peer gossip, shares\<close>

section \<open>pool/task/TaskServer.ts: the block-notify listener\<close>

text \<open>
  The task server owns a daemon watcher (outside the sources; here only the number of
  times its \<open>refreshMiningInfoAsync\<close> was invoked is kept) and the private field
  \<open>lastNotifiedHash\<close>, which no constructor or method of the class assigns:
  it is \<open>undefined\<close> (\<open>None\<close>) when the server is built.
\<close>

record TaskServer =
  lastNotifiedHash :: "string option"
  refreshMiningInfoCalls :: nat

definition TaskServer_new :: TaskServer where
  "TaskServer_new = \<lparr>lastNotifiedHash = None, refreshMiningInfoCalls = 0\<rparr>"

definition refreshMiningInfoAsync :: "TaskServer \<Rightarrow> TaskServer" where
  "refreshMiningInfoAsync ts = ts\<lparr>refreshMiningInfoCalls := Suc (refreshMiningInfoCalls ts)\<rparr>"

definition onPusherReady :: "TaskServer \<Rightarrow> TaskServer" where
  "onPusherReady ts = refreshMiningInfoAsync ts"

text \<open>
  \<open>onBlockNotifyingSocketConnected\<close>: the argument is the string read from the socket.
  \<open>!hash\<close> holds of the empty string; \<open>===\<close> compares the stored field with it.
\<close>

definition onBlockNotifyingSocketConnected :: "TaskServer \<Rightarrow> string \<Rightarrow> TaskServer" where
  "onBlockNotifyingSocketConnected ts hash =
     (if hash = [] then ts
      else if lastNotifiedHash ts = Some hash then ts
      else refreshMiningInfoAsync ts)"

section \<open>JavaScript containers and the sequence extensions\<close>

text \<open>
  A JavaScript \<open>Map\<close> keeps its entries in insertion order with distinct keys: an
  association list. \<open>set\<close> overwrites the value of a present key in place and
  appends an absent one, \<open>delete\<close> removes the entry, \<open>get\<close> of an absent key
  is \<open>undefined\<close> (\<open>None\<close>).
\<close>

type_synonym ('k, 'v) jsmap = "('k \<times> 'v) list"

definition Map_has :: "('k, 'v) jsmap \<Rightarrow> 'k \<Rightarrow> bool" where
  "Map_has m k = (map_of m k \<noteq> None)"

definition Map_get :: "('k, 'v) jsmap \<Rightarrow> 'k \<Rightarrow> 'v option" where
  "Map_get m k = map_of m k"

definition Map_set :: "('k, 'v) jsmap \<Rightarrow> 'k \<Rightarrow> 'v \<Rightarrow> ('k, 'v) jsmap" where
  "Map_set m k v = AList.update k v m"

definition Map_delete :: "('k, 'v) jsmap \<Rightarrow> 'k \<Rightarrow> ('k, 'v) jsmap" where
  "Map_delete m k = AList.delete k m"

definition Map_keys :: "('k, 'v) jsmap \<Rightarrow> 'k list" where
  "Map_keys m = map fst m"

definition Map_values :: "('k, 'v) jsmap \<Rightarrow> 'v list" where
  "Map_values m = map snd m"

text \<open>
  Modelled from the spec: the sequence extension methods \<open>any\<close>, \<open>except\<close>,
  \<open>where\<close>, \<open>select\<close>, \<open>firstOrDefault\<close>, \<open>toMap\<close>, \<open>sum\<close> and
  \<open>aggregate\<close> are installed on the prototypes by a module outside the sources. The
  spec's design notes give their contract: ordinary iteration combinators, run in the
  order of the sequence; \<open>any()\<close> tests non-emptiness and \<open>any(pred)\<close> existence;
  \<open>except\<close> takes an equality on entries and returns the entries of the left side
  that have no equal on the right side.
\<close>

definition any_nonempty :: "'a list \<Rightarrow> bool" where
  "any_nonempty xs = (xs \<noteq> [])"

definition any_pred :: "'a list \<Rightarrow> ('a \<Rightarrow> bool) \<Rightarrow> bool" where
  "any_pred xs p = list_ex p xs"

definition except :: "'a list \<Rightarrow> 'b list \<Rightarrow> ('a \<Rightarrow> 'b \<Rightarrow> bool) \<Rightarrow> 'a list" where
  "except xs ys eq = filter (\<lambda>x. \<not> list_ex (\<lambda>y. eq x y) ys) xs"

definition where_seq :: "'a list \<Rightarrow> ('a \<Rightarrow> bool) \<Rightarrow> 'a list" where
  "where_seq xs p = filter p xs"

definition select :: "'a list \<Rightarrow> ('a \<Rightarrow> 'b) \<Rightarrow> 'b list" where
  "select xs f = map f xs"

text \<open>The default of an empty sequence is \<open>undefined\<close>, as is an undefined first element.\<close>

definition firstOrDefault :: "'a option list \<Rightarrow> 'a option" where
  "firstOrDefault xs = (case xs of [] \<Rightarrow> None | x # _ \<Rightarrow> x)"

definition toMap :: "'a list \<Rightarrow> ('a \<Rightarrow> 'k) \<Rightarrow> ('a \<Rightarrow> 'v) \<Rightarrow> ('k, 'v) jsmap" where
  "toMap xs keyOf valueOf = foldl (\<lambda>m x. Map_set m (keyOf x) (valueOf x)) [] xs"

definition sum_seq :: "'a list \<Rightarrow> ('a \<Rightarrow> real) \<Rightarrow> real" where
  "sum_seq xs f = foldl (\<lambda>acc x. acc + f x) 0 xs"

definition aggregate :: "'a list \<Rightarrow> 'b \<Rightarrow> ('b \<Rightarrow> 'a \<Rightarrow> 'b) \<Rightarrow> 'b" where
  "aggregate xs seed f = foldl f seed xs"

text \<open>\<open>a || b\<close> on object references: an object is truthy, \<open>undefined\<close> is not.\<close>

definition or_else :: "'a option \<Rightarrow> 'a option \<Rightarrow> 'a option" where
  "or_else a b = (case a of Some x \<Rightarrow> Some x | None \<Rightarrow> b)"

text \<open>
  A \<open>Buffer\<close> is a list of bytes. The keys of the maps of hashes are strings, but
  \<open>tx.getHash()\<close> of bitcoinjs-lib returns a \<open>Buffer\<close>, a new object on every call,
  and lines 78 to 85 use it as a key all the same. A \<open>Map\<close> and a \<open>Set\<close> compare
  strings by value and objects by identity, so a key is a string, or a \<open>Buffer\<close>
  object with its identity and its bytes.
\<close>

type_synonym byte = "8 word"
type_synonym Buffer = "byte list"

datatype jskey = Str string | Buf nat Buffer

section \<open>p2pool/p2p/Peer.ts: the peer coordinator\<close>

text \<open>
  \<open>TransactionTemplate\<close> is \<open>{ txid, hash, data }\<close> with \<open>data\<close> in hex;
  \<open>txid\<close> may be absent. \<open>tx.txid || tx.hash\<close> takes \<open>hash\<close> when \<open>txid\<close>
  is absent or the empty string; an object is truthy.
\<close>

record TransactionTemplate =
  txid :: "jskey option"
  hash :: jskey
  data :: string

definition txid_or_hash :: "TransactionTemplate \<Rightarrow> jskey" where
  "txid_or_hash tx =
     (case txid tx of None \<Rightarrow> hash tx | Some t \<Rightarrow> if t = Str [] then hash tx else t)"

text \<open>
  \<open>Transaction\<close> comes from bitcoinjs-lib; the coordinator uses \<open>Transaction.fromHex\<close>
  (which throws on malformed input: \<open>None\<close>), \<open>getHash\<close> (the bytes of the hash)
  and \<open>toHex\<close>.
\<close>

record 'tx bitcoinjs =
  fromHex :: "string \<Rightarrow> 'tx option"
  getHash :: "'tx \<Rightarrow> Buffer"
  toHex :: "'tx \<Rightarrow> string"

text \<open>
  Modelled from the spec: the class \<open>Node\<close> (./Node, outside the sources). A node owns
  a tag \<open>host:port\<close>, the map \<open>rememberedTxs\<close> from hash to transaction and the set
  \<open>remoteTxHashs\<close>; \<open>closed\<close> records that \<open>close\<close> was called on it.
\<close>

record 'tx Node =
  tag :: string
  rememberedTxs :: "(jskey, 'tx) jsmap"
  remoteTxHashs :: "jskey set"
  closed :: bool

text \<open>The commands a node is asked to send, with their arguments.\<close>

datatype command =
    Have_tx "jskey list"
  | Losing_tx "jskey list"
  | Remember_tx "jskey list" "TransactionTemplate list"
  | Forget_tx "jskey list" real

text \<open>
  Nodes are objects shared between the \<open>peers\<close> map and the event handlers, so the
  state holds a store from object identities to nodes. \<open>sent\<close> is the log of the
  \<open>send...Async\<close> calls made on nodes, in call order. A snapshot in
  \<open>knownTxsCaches\<close> holds what \<open>oldValue.get\<close> returned for each removed hash.
  \<open>allocated\<close> counts the \<open>Buffer\<close> objects that \<open>getHash\<close> has returned to the
  coordinator: the next one gets this number as its identity.
\<close>

record 'tx Peer =
  nodes :: "nat \<Rightarrow> 'tx Node"
  peers :: "(string, nat) jsmap"
  knownTxs :: "(jskey, TransactionTemplate) jsmap"
  knownTxsCaches :: "(jskey, TransactionTemplate option) jsmap list"
  miningTxs :: "(jskey, TransactionTemplate) jsmap"
  sent :: "(nat \<times> command) list"
  allocated :: nat

definition Peer_new :: "(nat \<Rightarrow> 'tx Node) \<Rightarrow> 'tx Peer" where
  "Peer_new store = \<lparr>nodes = store, peers = [], knownTxs = [], knownTxsCaches = [],
     miningTxs = [], sent = [], allocated = 0\<rparr>"

definition send :: "nat \<Rightarrow> command \<Rightarrow> 'tx Peer \<Rightarrow> 'tx Peer" where
  "send p c st = st\<lparr>sent := sent st @ [(p, c)]\<rparr>"

text \<open>\<open>this.peers.forEach(p => ...)\<close>: the nodes of the map, in insertion order.\<close>

definition peers_forEach :: "'tx Peer \<Rightarrow> (nat \<Rightarrow> 'tx Peer \<Rightarrow> 'tx Peer) \<Rightarrow> 'tx Peer" where
  "peers_forEach st f = foldl (\<lambda>s p. f p s) st (Map_values (peers st))"

text \<open>
  Modelled from the spec: \<open>Node.close\<close> (outside the sources). Closing the socket ends
  the node; the \<open>onEnd\<close> handler that \<open>initNode\<close> installed on it then runs
  \<open>this.peers.delete(sender.tag)\<close>, so that the coordinator removes the node.
\<close>

definition Node_close :: "'tx Peer \<Rightarrow> nat \<Rightarrow> 'tx Peer" where
  "Node_close st sender =
     st\<lparr>nodes := (nodes st)(sender := (nodes st sender)\<lparr>closed := True\<rparr>),
        peers := Map_delete (peers st) (tag (nodes st sender))\<rparr>"

definition initNode :: "'tx Peer \<Rightarrow> nat \<Rightarrow> 'tx Peer" where
  "initNode st node = st\<lparr>peers := Map_set (peers st) (tag (nodes st node)) node\<rparr>"

definition remember :: "'tx Peer \<Rightarrow> nat \<Rightarrow> jskey \<Rightarrow> 'tx \<Rightarrow> 'tx Peer" where
  "remember st sender h tx =
     st\<lparr>nodes := (nodes st)(sender := (nodes st sender)
        \<lparr>rememberedTxs := Map_set (rememberedTxs (nodes st sender)) h tx\<rparr>)\<rparr>"

subsection \<open>Change listeners\<close>

definition keyEq :: "'k \<times> 'v \<Rightarrow> 'k \<times> 'w \<Rightarrow> bool" where
  "keyEq e1 e2 = (fst e1 = fst e2)"

definition cache_get :: "(jskey, TransactionTemplate option) jsmap \<Rightarrow> jskey \<Rightarrow> TransactionTemplate option" where
  "cache_get cache h = (case Map_get cache h of None \<Rightarrow> None | Some v \<Rightarrow> v)"

definition onKnownTxsChanged ::
  "'tx Peer \<Rightarrow> (jskey, TransactionTemplate) jsmap \<Rightarrow> (jskey, TransactionTemplate) jsmap \<Rightarrow> 'tx Peer" where
  "onKnownTxsChanged st oldValue newValue =
     (let added = select (except newValue oldValue keyEq) fst;
          removed = select (except oldValue newValue keyEq) fst;
          st1 = (if any_nonempty added then peers_forEach st (\<lambda>p. send p (Have_tx added)) else st);
          st2 = (if any_nonempty removed then peers_forEach st1 (\<lambda>p. send p (Losing_tx removed)) else st1);
          st3 = st2\<lparr>knownTxsCaches := knownTxsCaches st2 @
                  [toMap (select removed (\<lambda>h. (h, Map_get oldValue h))) fst snd]\<rparr>
      in if length (knownTxsCaches st3) > 10
         then st3\<lparr>knownTxsCaches := tl (knownTxsCaches st3)\<rparr> else st3)"

definition onMiningTxsChanged ::
  "'tx Peer \<Rightarrow> (jskey, TransactionTemplate) jsmap \<Rightarrow> (jskey, TransactionTemplate) jsmap \<Rightarrow> 'tx Peer" where
  "onMiningTxsChanged st oldValue newValue =
     (let added = select (except newValue oldValue keyEq) snd;
          removed = select (except oldValue newValue keyEq) snd;
          st1 = (if any_nonempty added
                 then peers_forEach st (\<lambda>p. send p (Remember_tx
                        (select (where_seq added (\<lambda>tx. txid_or_hash tx \<in> remoteTxHashs (nodes st p))) txid_or_hash)
                        (where_seq added (\<lambda>tx. txid_or_hash tx \<notin> remoteTxHashs (nodes st p)))))
                 else st)
      in if any_nonempty removed
         then (let totalSize = sum_seq removed (\<lambda>item. real (length (data item)) / 2)
               in peers_forEach st1 (\<lambda>p. send p (Forget_tx (select removed txid_or_hash) totalSize)))
         else st1)"

text \<open>
  Modelled from the spec: \<open>Property\<close> (nodejs/Property, outside the sources), the
  observable wrapper of \<open>knownTxs\<close> and \<open>miningTxs\<close>. Assignment fires the change
  listener synchronously with the old and the new value; the listener completes before
  the assignment returns.
\<close>

definition knownTxs_set :: "'tx Peer \<Rightarrow> (jskey, TransactionTemplate) jsmap \<Rightarrow> 'tx Peer" where
  "knownTxs_set st newValue = (onKnownTxsChanged st (knownTxs st) newValue)\<lparr>knownTxs := newValue\<rparr>"

definition miningTxs_set :: "'tx Peer \<Rightarrow> (jskey, TransactionTemplate) jsmap \<Rightarrow> 'tx Peer" where
  "miningTxs_set st newValue = (onMiningTxsChanged st (miningTxs st) newValue)\<lparr>miningTxs := newValue\<rparr>"

subsection \<open>Node events\<close>

definition handleNodeVersion :: "'tx Peer \<Rightarrow> nat \<Rightarrow> 'tx Peer" where
  "handleNodeVersion st sender =
     send sender (Remember_tx [] (Map_values (miningTxs st)))
       (send sender (Have_tx (Map_keys (knownTxs st))) st)"

text \<open>
  How a handler ends: it runs to its last statement, returns early, or an exception
  leaves it. The state reached so far is kept in each case.
\<close>

datatype 's completion = Normal (state_of: 's) | Returned (state_of: 's) | Thrown (state_of: 's)

text \<open>
  The lookup of line 65: \<open>knownTxs\<close> first, then the first snapshot of
  \<open>knownTxsCaches\<close>, in array order, that has the hash.
\<close>

definition lookupKnownTx :: "'tx Peer \<Rightarrow> jskey \<Rightarrow> TransactionTemplate option" where
  "lookupKnownTx st h =
     or_else (Map_get (knownTxs st) h)
       (firstOrDefault (select (where_seq (knownTxsCaches st) (\<lambda>cache. Map_has cache h))
          (\<lambda>cache. cache_get cache h)))"

text \<open>
  The first loop of \<open>handleRemember_tx\<close>, over the hashes still to visit; \<open>txHashes\<close>
  is the whole argument, which the test of line 59 ranges over in every iteration. The
  hashes of the message are strings.
\<close>

fun remember_hashes ::
  "'tx bitcoinjs \<Rightarrow> nat \<Rightarrow> string list \<Rightarrow> string list \<Rightarrow> 'tx Peer \<Rightarrow> 'tx Peer completion" where
  "remember_hashes L sender txHashes [] st = Normal st"
| "remember_hashes L sender txHashes (h # rest) st =
     (if any_pred txHashes (\<lambda>h'. Map_has (rememberedTxs (nodes st sender)) (Str h'))
      then Returned (Node_close st sender)
      else (case lookupKnownTx st (Str h) of
              None \<Rightarrow> Returned (Node_close st sender)
            | Some knownTx \<Rightarrow>
                (case fromHex L (data knownTx) of
                   None \<Rightarrow> Thrown st
                 | Some tx \<Rightarrow> remember_hashes L sender txHashes rest (remember st sender (Str h) tx))))"

text \<open>
  The second loop, over the full transactions, with the working copy of \<open>knownTxs\<close>.
  \<open>tx.getHash()\<close> is a new \<open>Buffer\<close> object: \<open>txHash\<close> has the next identity, and
  the object is the key of both maps and the \<open>txid\<close> and \<open>hash\<close> of the template.
\<close>

fun remember_txs ::
  "'tx bitcoinjs \<Rightarrow> nat \<Rightarrow> 'tx list \<Rightarrow> (jskey, TransactionTemplate) jsmap \<Rightarrow> 'tx Peer \<Rightarrow>
   ('tx Peer \<times> (jskey, TransactionTemplate) jsmap) completion" where
  "remember_txs L sender [] known st = Normal (st, known)"
| "remember_txs L sender (tx # rest) known st =
     (let txHash = Buf (allocated st) (getHash L tx);
          st0 = st\<lparr>allocated := Suc (allocated st)\<rparr> in
      if Map_has (rememberedTxs (nodes st0 sender)) txHash
      then Returned (Node_close st0 sender, known)
      else remember_txs L sender rest
             (Map_set known txHash \<lparr>txid = Some txHash, hash = txHash, data = toHex L tx\<rparr>)
             (remember st0 sender txHash tx))"

definition handleRemember_tx ::
  "'tx bitcoinjs \<Rightarrow> 'tx Peer \<Rightarrow> nat \<Rightarrow> string list \<Rightarrow> 'tx list \<Rightarrow> 'tx Peer completion" where
  "handleRemember_tx L st sender txHashes txs =
     (case remember_hashes L sender txHashes txHashes st of
        Returned st1 \<Rightarrow> Returned st1
      | Thrown st1 \<Rightarrow> Thrown st1
      | Normal st1 \<Rightarrow>
          (case remember_txs L sender txs (knownTxs st1) st1 of
             Returned (st2, known) \<Rightarrow> Returned st2
           | Thrown (st2, known) \<Rightarrow> Thrown st2
           | Normal (st2, known) \<Rightarrow> Normal (knownTxs_set st2 known)))"

subsection \<open>Peer work\<close>

definition updateGbt :: "'tx Peer \<Rightarrow> TransactionTemplate list \<Rightarrow> 'tx Peer" where
  "updateGbt st transactions =
     (let mining = foldl (\<lambda>m tx. Map_set m (txid_or_hash tx) tx) [] transactions;
          known = foldl (\<lambda>m tx. Map_set m (txid_or_hash tx) tx) (knownTxs st) transactions
      in knownTxs_set (miningTxs_set st mining) known)"

subsection \<open>The states of a coordinator\<close>



section \<open>p2pool/p2p/shares/BaseShare.ts: share records\<close>

subsection \<open>Buffers and the bignum library\<close>

text \<open>What can leave \<open>init\<close> and the parser as an exception.\<close>

datatype exn = AssertionError | TypeError | RangeError | ReaderError | HashLinkError

definition be_nat :: "Buffer \<Rightarrow> nat" where
  "be_nat buf = foldl (\<lambda>acc b. 256 * acc + unat b) 0 buf"

definition le_nat :: "Buffer \<Rightarrow> nat" where
  "le_nat buf = be_nat (rev buf)"

definition nat_to_be :: "nat \<Rightarrow> nat \<Rightarrow> Buffer" where
  "nat_to_be len v = rev (map (\<lambda>i. of_nat (v div 256 ^ i mod 256)) [0..<len])"

definition chunks :: "nat \<Rightarrow> 'a list \<Rightarrow> 'a list list" where
  "chunks n xs = map (\<lambda>i. take n (drop (i * n) xs)) [0..<length xs div n]"

fun bit_length :: "nat \<Rightarrow> nat" where
  "bit_length n = (if n = 0 then 0 else Suc (bit_length (n div 2)))"

declare bit_length.simps [simp del]

text \<open>
  \<open>BigNum.fromBuffer(buf, { endian: 'little', size })\<close> of the bignum library: the
  length of the buffer must be a multiple of \<open>size\<close> (it throws a RangeError
  otherwise); the bytes of every word of \<open>size\<close> bytes are reversed and the result
  is read as one big-endian number. On a buffer of exactly \<open>size\<close> bytes this is
  its little-endian value.
\<close>

definition BigNum_fromBuffer_le :: "nat \<Rightarrow> Buffer \<Rightarrow> nat option" where
  "BigNum_fromBuffer_le sz buf =
     (if length buf mod sz \<noteq> 0 then None
      else Some (be_nat (concat (map rev (chunks sz buf)))))"

text \<open>
  \<open>toBuffer({ endian: 'little', size })\<close>: the hexadecimal digits of the number are
  padded with zeros to a whole number of words of \<open>size\<close> bytes, and the bytes of
  every word are reversed.
\<close>

definition BigNum_toBuffer_le :: "nat \<Rightarrow> nat \<Rightarrow> Buffer" where
  "BigNum_toBuffer_le sz v =
     (let hexLength = max 1 ((bit_length v + 3) div 4);
          len = ((hexLength + 2 * sz - 1) div (2 * sz)) * sz
      in concat (map rev (chunks sz (nat_to_be len v))))"

text \<open>
  \<open>toNumber()\<close> turns the big integer into a JavaScript number, an IEEE double: exact
  below \<open>2^53\<close>, and above it rounded to 53 significant bits, to nearest with ties to
  even (the library documents the loss of precision). JavaScript numbers are modelled
  by the reals they denote; infinities (from \<open>2^1024\<close> on) and NaN are not represented.
\<close>

definition BigNum_toNumber :: "nat \<Rightarrow> real" where
  "BigNum_toNumber v =
     (if v < 2 ^ 53 then real v
      else (let e = bit_length v - 53;
                q = v div 2 ^ e;
                r = v mod 2 ^ e;
                q' = (if 2 * r > 2 ^ e \<or> (2 * r = 2 ^ e \<and> odd q) then q + 1 else q)
            in real (q' * 2 ^ e)))"

subsection \<open>Module constants\<close>

definition hex_digit :: "char \<Rightarrow> nat" where
  "hex_digit c = (let n = of_char c in
     if 48 \<le> n \<and> n \<le> (57::nat) then n - 48 else if 97 \<le> n \<and> n \<le> 102 then n - 87 else 0)"

fun Buffer_from_hex :: "string \<Rightarrow> Buffer" where
  "Buffer_from_hex (a # b # rest) = of_nat (16 * hex_digit a + hex_digit b) # Buffer_from_hex rest"
| "Buffer_from_hex _ = []"

definition DONATION_SCRIPT :: Buffer where
  "DONATION_SCRIPT = Buffer_from_hex
     ''4104ffd03de44a6e11b9917f3a29f9443283d9871c9d743ef30d5eddcd37094b64d1b3d8090496b53256786bf5c82932ec23c3b74d9f05a6f95a8b5529352656664bac''"

text \<open>
  The module computes \<open>GENTX_BEFORE_REFHASH\<close> with \<open>BufferWriter\<close> (outside the
  sources) and asserts, when it is loaded, that the result is this literal.
\<close>

definition GENTX_BEFORE_REFHASH :: Buffer where
  "GENTX_BEFORE_REFHASH = Buffer_from_hex
     ''434104ffd03de44a6e11b9917f3a29f9443283d9871c9d743ef30d5eddcd37094b64d1b3d8090496b53256786bf5c82932ec23c3b74d9f05a6f95a8b5529352656664bac00000000000000002a6a28''"

subsection \<open>Static configuration and the classes outside the sources\<close>

text \<open>The static fields of \<open>BaseShare\<close>, set when the pool starts.\<close>

record config =
  SEGWIT_ACTIVATION_VERSION :: int
  IDENTIFIER :: Buffer
  PowFunc :: "Buffer \<Rightarrow> Buffer"
  MAX_TARGET :: real

definition default_config :: "Buffer \<Rightarrow> (Buffer \<Rightarrow> Buffer) \<Rightarrow> config" where
  "default_config ident pow =
     \<lparr>SEGWIT_ACTIVATION_VERSION = 0, IDENTIFIER = ident, PowFunc = pow, MAX_TARGET = 0\<rparr>"

text \<open>
  \<open>SmallBlockHeader\<close>, \<open>ShareInfo\<close>, \<open>HashLink\<close>, \<open>BufferReader\<close>, \<open>BufferWriter\<close>,
  \<open>utils\<close> and \<open>Algos\<close> are modules outside the sources: their values are type
  parameters and their functions are taken as parameters, the fields of this record.
  A reader is the bytes not yet consumed; a read returns the value and the bytes left,
  or \<open>None\<close> when it fails. \<open>check\<close> is \<open>None\<close> when the hash link does not fit the
  prefix. \<open>segwit_branch\<close> is \<open>info.segwit.txidMerkleLink.branch\<close>: \<open>None\<close> when
  \<open>info.segwit\<close> is undefined (the access throws a TypeError), \<open>Some None\<close> when the
  branch is undefined.
\<close>

record ('hdr, 'info, 'hl) modules =
  SmallBlockHeader_fromBufferReader :: "Buffer \<Rightarrow> ('hdr \<times> Buffer) option"
  SmallBlockHeader_toBuffer :: "'hdr \<Rightarrow> Buffer"
  calculateHash :: "'hdr \<Rightarrow> Buffer \<Rightarrow> Buffer"
  buildHeader :: "'hdr \<Rightarrow> Buffer \<Rightarrow> Buffer"
  ShareInfo_fromBufferReader :: "Buffer \<Rightarrow> bool \<Rightarrow> ('info \<times> Buffer) option"
  ShareInfo_toBuffer :: "'info \<Rightarrow> Buffer"
  extractTransactionHashRefs :: "'info \<Rightarrow> (nat \<times> nat) list"
  newTransactionHashes :: "'info \<Rightarrow> string list"
  pubkeyHash :: "'info \<Rightarrow> Buffer"
  previousShareHash :: "'info \<Rightarrow> string"
  bits :: "'info \<Rightarrow> nat"
  segwit_branch :: "'info \<Rightarrow> Buffer list option option"
  HashLink_fromBufferReader :: "Buffer \<Rightarrow> ('hl \<times> Buffer) option"
  HashLink_toBuffer :: "'hl \<Rightarrow> Buffer"
  check :: "'hl \<Rightarrow> Buffer \<Rightarrow> Buffer \<Rightarrow> Buffer option"
  readList :: "nat \<Rightarrow> Buffer \<Rightarrow> (Buffer list \<times> Buffer) option"
  readNumber :: "nat \<Rightarrow> Buffer \<Rightarrow> (nat \<times> Buffer) option"
  writeList :: "Buffer list \<Rightarrow> Buffer"
  sha256d :: "Buffer \<Rightarrow> Buffer"
  hash160ToScript :: "Buffer \<Rightarrow> Buffer"
  hexFromReversedBuffer :: "Buffer \<Rightarrow> string"
  bitsToTarget :: "nat \<Rightarrow> real"

subsection \<open>Shares\<close>

datatype share_class = Share | NewShare

text \<open>
  The fields of a share. Those that \<open>init\<close> derives are undefined (\<open>None\<close>) before.
  The field \<open>hash\<close> of the class is \<open>share_hash\<close> here.
\<close>

record ('hdr, 'info, 'hl) share =
  VERSION :: int
  VOTING_VERSION :: int
  SUCCESSOR :: "share_class option"
  MAX_BLOCK_WEIGHT :: nat
  MAX_NEW_TXS_SIZE :: nat
  minHeader :: 'hdr
  info :: 'info
  refMerkleLink :: "Buffer list"
  lastTxoutNonce :: nat
  hashLink :: 'hl
  merkleLink :: "Buffer list"
  share_hash :: "string option"
  previousHash :: "string option"
  newScript :: "Buffer option"
  target :: "real option"
  gentxHash :: "Buffer option"
  newTxHashes :: "string list option"
  validity :: bool

definition ShareVersionMapper :: "int \<Rightarrow> share_class option" where
  "ShareVersionMapper version =
     (if version = 16 then Some Share else if version = 17 then Some NewShare else None)"

text \<open>
  The constructors of \<open>Share\<close> and \<open>NewShare\<close> assign \<open>super.VERSION\<close>, which sets
  the field of the instance (ECMAScript 2015 classes): the static \<open>VERSION\<close> of the
  class.
\<close>

definition class_VERSION :: "share_class \<Rightarrow> int" where
  "class_VERSION cls = (case cls of Share \<Rightarrow> 16 | NewShare \<Rightarrow> 17)"

text \<open>\<open>new constructor()\<close> followed by the six assignments of the parser.\<close>

definition new_share ::
  "share_class \<Rightarrow> 'hdr \<Rightarrow> 'info \<Rightarrow> Buffer list \<Rightarrow> nat \<Rightarrow> 'hl \<Rightarrow> Buffer list \<Rightarrow> ('hdr, 'info, 'hl) share" where
  "new_share cls hdr shareInfo rml nonce hl ml =
     \<lparr>VERSION = class_VERSION cls,
      VOTING_VERSION = (case cls of Share \<Rightarrow> 16 | NewShare \<Rightarrow> 17),
      SUCCESSOR = (case cls of Share \<Rightarrow> Some NewShare | NewShare \<Rightarrow> None),
      MAX_BLOCK_WEIGHT = 4000000,
      MAX_NEW_TXS_SIZE = (case cls of Share \<Rightarrow> 50000 | NewShare \<Rightarrow> 100000),
      minHeader = hdr, info = shareInfo, refMerkleLink = rml, lastTxoutNonce = nonce,
      hashLink = hl, merkleLink = ml,
      share_hash = None, previousHash = None, newScript = None, target = None,
      gentxHash = None, newTxHashes = None, validity = False\<rparr>"

definition isSegwitActivated :: "config \<Rightarrow> int \<Rightarrow> bool" where
  "isSegwitActivated C version =
     (version \<ge> SEGWIT_ACTIVATION_VERSION C \<and> SEGWIT_ACTIVATION_VERSION C > 0)"

definition getRefHash :: "config \<Rightarrow> ('hdr, 'info, 'hl) modules \<Rightarrow> 'info \<Rightarrow> Buffer list \<Rightarrow> Buffer" where
  "getRefHash C M shareInfo refLink =
     aggregate refLink (sha256d M (IDENTIFIER C @ ShareInfo_toBuffer M shareInfo))
       (\<lambda>c n. sha256d M (c @ n))"

text \<open>
  The loop over the transaction hash references: the assertion throws at the first
  tuple with \<open>shareCount \<ge> 110\<close>; a tuple with \<open>shareCount > 0\<close> is skipped; the
  \<open>txCount\<close> of the others is added to the set \<open>n\<close>.
\<close>

fun collectRefs :: "(nat \<times> nat) list \<Rightarrow> nat set \<Rightarrow> exn + nat set" where
  "collectRefs [] n = Inr n"
| "collectRefs ((shareCount, txCount) # rest) n =
     (if \<not> shareCount < 110 then Inl AssertionError
      else if shareCount > 0 then collectRefs rest n
      else collectRefs rest (insert txCount n))"

text \<open>The link that line 75 picks: the segwit branch when activated and present.\<close>

definition chosenLink ::
  "config \<Rightarrow> ('hdr, 'info, 'hl) modules \<Rightarrow> ('hdr, 'info, 'hl) share \<Rightarrow> exn + Buffer list" where
  "chosenLink C M s =
     (if isSegwitActivated C (VERSION s)
      then (case segwit_branch M (info s) of
              None \<Rightarrow> Inl TypeError
            | Some None \<Rightarrow> Inr (merkleLink s)
            | Some (Some branch) \<Rightarrow> Inr branch)
      else Inr (merkleLink s))"

text \<open>
  Lines 65 to 78 of \<open>init\<close>: the derived fields and the merkle root.
\<close>

definition derive ::
  "config \<Rightarrow> ('hdr, 'info, 'hl) modules \<Rightarrow> ('hdr, 'info, 'hl) share \<Rightarrow>
   exn + (('hdr, 'info, 'hl) share \<times> Buffer)" where
  "derive C M s =
     (let s1 = s\<lparr>newTxHashes := Some (newTransactionHashes M (info s)),
                 newScript := Some (hash160ToScript M (pubkeyHash M (info s))),
                 target := Some (bitsToTarget M (bits M (info s)))\<rparr>
      in case check M (hashLink s)
                (getRefHash C M (info s) (refMerkleLink s) @
                 BigNum_toBuffer_le 8 (lastTxoutNonce s) @ replicate 4 0)
                GENTX_BEFORE_REFHASH of
           None \<Rightarrow> Inl HashLinkError
         | Some gentx \<Rightarrow>
             (case chosenLink C M s of
                Inl e \<Rightarrow> Inl e
              | Inr link \<Rightarrow>
                  (let merkleRoot = aggregate link gentx (\<lambda>c n. sha256d M (c @ n));
                       headerHash = calculateHash M (minHeader s) merkleRoot
                   in Inr (s1\<lparr>gentxHash := Some gentx,
                              share_hash := Some (hexFromReversedBuffer M headerHash),
                              previousHash := Some (previousShareHash M (info s))\<rparr>,
                           merkleRoot))))"

text \<open>
  \<open>init\<close> returns \<open>false\<close> or \<open>true\<close> together with the share as it leaves it, or
  throws; the fields it assigned before throwing are not kept, the parser drops the
  share then.
\<close>

definition init ::
  "config \<Rightarrow> ('hdr, 'info, 'hl) modules \<Rightarrow> ('hdr, 'info, 'hl) share \<Rightarrow>
   exn + (bool \<times> ('hdr, 'info, 'hl) share)" where
  "init C M s =
     (case collectRefs (extractTransactionHashRefs M (info s)) {} of
        Inl e \<Rightarrow> Inl e
      | Inr n \<Rightarrow>
          if card n \<noteq> length (newTransactionHashes M (info s)) then Inr (False, s)
          else (case derive C M s of
                  Inl e \<Rightarrow> Inl e
                | Inr (s1, merkleRoot) \<Rightarrow>
                    if bitsToTarget M (bits M (info s)) > MAX_TARGET C then Inr (False, s1)
                    else (case BigNum_fromBuffer_le 32
                                 (PowFunc C (buildHeader M (minHeader s) merkleRoot)) of
                            None \<Rightarrow> Inl RangeError
                          | Some pow \<Rightarrow>
                              if BigNum_toNumber pow > bitsToTarget M (bits M (info s))
                              then Inr (False, s1)
                              else Inr (True, s1\<lparr>validity := True\<rparr>))))"

definition toBuffer :: "('hdr, 'info, 'hl) modules \<Rightarrow> ('hdr, 'info, 'hl) share \<Rightarrow> Buffer" where
  "toBuffer M s =
     SmallBlockHeader_toBuffer M (minHeader s) @
     ShareInfo_toBuffer M (info s) @
     writeList M (refMerkleLink s) @
     BigNum_toBuffer_le 8 (lastTxoutNonce s) @
     HashLink_toBuffer M (hashLink s) @
     writeList M (merkleLink s)"

text \<open>
  The static parser: \<open>null\<close> (\<open>None\<close>) with the reader untouched for a version outside
  the registry; otherwise the six reads in order, then \<open>init\<close>, whose result is
  dropped, and the share is returned with the reader after the last read.
\<close>

definition fromBufferReader ::
  "config \<Rightarrow> ('hdr, 'info, 'hl) modules \<Rightarrow> int \<Rightarrow> Buffer \<Rightarrow>
   exn + (('hdr, 'info, 'hl) share option \<times> Buffer)" where
  "fromBufferReader C M version reader =
     (case ShareVersionMapper version of
        None \<Rightarrow> Inr (None, reader)
      | Some cls \<Rightarrow>
     (case SmallBlockHeader_fromBufferReader M reader of
        None \<Rightarrow> Inl ReaderError
      | Some (hdr, r1) \<Rightarrow>
     (case ShareInfo_fromBufferReader M r1 (isSegwitActivated C (class_VERSION cls)) of
        None \<Rightarrow> Inl ReaderError
      | Some (shareInfo, r2) \<Rightarrow>
     (case readList M 32 r2 of
        None \<Rightarrow> Inl ReaderError
      | Some (rml, r3) \<Rightarrow>
     (case readNumber M 8 r3 of
        None \<Rightarrow> Inl ReaderError
      | Some (nonce, r4) \<Rightarrow>
     (case HashLink_fromBufferReader M r4 of
        None \<Rightarrow> Inl ReaderError
      | Some (hl, r5) \<Rightarrow>
     (case readList M 32 r5 of
        None \<Rightarrow> Inl ReaderError
      | Some (ml, r6) \<Rightarrow>
     (case init C M (new_share cls hdr shareInfo rml nonce hl ml) of
        Inl e \<Rightarrow> Inl e
      | Inr (ok, s) \<Rightarrow> Inr (Some s, r6)))))))))"

section \<open>Example inputs\<close>

text \<open>
  Concrete inputs on which the theorems below are run. Transactions are represented
  by their hex strings; the two nodes have distinct tags and empty maps.
\<close>

definition example_lib :: "string bitcoinjs" where
  "example_lib = \<lparr>fromHex = Some, getHash = (\<lambda>tx. map (\<lambda>c. of_nat (of_char c)) tx),
     toHex = (\<lambda>tx. tx)\<rparr>"

definition example_store :: "nat \<Rightarrow> string Node" where
  "example_store i = \<lparr>tag = (if i = 0 then ''10.0.0.1:9333'' else ''10.0.0.2:9333''),
     rememberedTxs = [], remoteTxHashs = {}, closed = False\<rparr>"

definition example_template :: "string \<Rightarrow> string \<Rightarrow> TransactionTemplate" where
  "example_template k d = \<lparr>txid = Some (Str k), hash = Str k, data = d\<rparr>"

definition example_peer :: "string Peer" where
  "example_peer = initNode (initNode (Peer_new example_store) 0) 1"

definition example_known :: "string Peer" where
  "example_known = example_peer\<lparr>knownTxs :=
     [(Str ''aa'', example_template ''aa'' ''01''), (Str ''bb'', example_template ''bb'' ''02'')]\<rparr>"


definition example_keys :: "string list" where
  "example_keys = [''a'', ''b'', ''c'', ''d'', ''e'', ''f'', ''g'', ''h'', ''i'', ''j'', ''k'']"

definition example_entries :: "string list \<Rightarrow> (jskey, TransactionTemplate) jsmap" where
  "example_entries ks = map (\<lambda>k. (Str k, example_template k ''00'')) ks"

text \<open>Eleven successive values of \<open>knownTxs\<close>, each losing the first key of the one before.\<close>

definition example_changes ::
  "((jskey, TransactionTemplate) jsmap \<times> (jskey, TransactionTemplate) jsmap) list" where
  "example_changes =
     map (\<lambda>i. (example_entries (drop i example_keys), example_entries (drop (Suc i) example_keys)))
       [0, 1, 2, 3, 4, 5, 6, 7, 8, 9, 10]"

text \<open>
  Mining transactions as \<open>updateGbt\<close> keys them: a segwit template whose \<open>txid\<close>
  differs from its \<open>hash\<close>, with 200 characters of data, a template without
  \<open>txid\<close>, with 300, and one whose \<open>txid\<close> is the empty string, with 100.
\<close>

definition example_segwit :: TransactionTemplate where
  "example_segwit = \<lparr>txid = Some (Str ''aa''), hash = Str ''a9'', data = replicate 200 CHR ''0''\<rparr>"

definition example_legacy :: TransactionTemplate where
  "example_legacy = \<lparr>txid = None, hash = Str ''bb'', data = replicate 300 CHR ''0''\<rparr>"

definition example_blank :: TransactionTemplate where
  "example_blank = \<lparr>txid = Some (Str []), hash = Str ''cc'', data = replicate 100 CHR ''0''\<rparr>"

definition example_mining :: "(jskey, TransactionTemplate) jsmap" where
  "example_mining =
     [(Str ''aa'', example_segwit), (Str ''bb'', example_legacy), (Str ''cc'', example_blank)]"

text \<open>
  Stand-ins for the modules of a share: fixed-width readers for the header (4 bytes),
  the share info (2 bytes: one hash reference \<open>(b div 2, b mod 2)\<close> and the number of new
  transaction hashes) and the hash link (1 byte); lists with a one-byte count; numbers
  read little-endian. The proof-of-work function returns the 32 bytes of
  \<open>2^200 + 1\<close>, and every \<open>bits\<close> value decodes to the target \<open>2^200\<close>.
\<close>

definition take_exactly :: "nat \<Rightarrow> Buffer \<Rightarrow> (Buffer \<times> Buffer) option" where
  "take_exactly n b = (if length b < n then None else Some (take n b, drop n b))"

definition example_readList :: "nat \<Rightarrow> Buffer \<Rightarrow> (Buffer list \<times> Buffer) option" where
  "example_readList sz b =
     (case b of
        [] \<Rightarrow> None
      | n # r \<Rightarrow> if length r < unat n * sz then None
                 else Some (chunks sz (take (unat n * sz) r), drop (unat n * sz) r))"

definition example_writeList :: "Buffer list \<Rightarrow> Buffer" where
  "example_writeList l = of_nat (length l) # concat l"

definition example_readNumber :: "nat \<Rightarrow> Buffer \<Rightarrow> (nat \<times> Buffer) option" where
  "example_readNumber sz b = (if length b < sz then None else Some (le_nat (take sz b), drop sz b))"

definition example_pow :: Buffer where
  "example_pow = 1 # replicate 24 0 @ 1 # replicate 6 0"

definition example_modules :: "(Buffer, Buffer, Buffer) modules" where
  "example_modules =
     \<lparr>SmallBlockHeader_fromBufferReader = take_exactly 4,
      SmallBlockHeader_toBuffer = (\<lambda>h. h),
      calculateHash = (\<lambda>h merkleRoot. h @ merkleRoot),
      buildHeader = (\<lambda>h merkleRoot. h @ merkleRoot),
      ShareInfo_fromBufferReader = (\<lambda>b segwit. take_exactly 2 b),
      ShareInfo_toBuffer = (\<lambda>i. i),
      extractTransactionHashRefs = (\<lambda>i. map (\<lambda>b. (unat b div 2, unat b mod 2)) (take 1 i)),
      newTransactionHashes = (\<lambda>i. replicate (unat (last i)) ''00''),
      pubkeyHash = (\<lambda>i. i),
      previousShareHash = (\<lambda>i. ''00''),
      bits = (\<lambda>i. 0),
      segwit_branch = (\<lambda>i. None),
      HashLink_fromBufferReader = take_exactly 1,
      HashLink_toBuffer = (\<lambda>hl. hl),
      check = (\<lambda>hl d prefix. Some (take 32 d)),
      readList = example_readList,
      readNumber = example_readNumber,
      writeList = example_writeList,
      sha256d = (\<lambda>b. take 32 (b @ replicate 32 0)),
      hash160ToScript = (\<lambda>h. h),
      hexFromReversedBuffer = (\<lambda>b. ''00''),
      bitsToTarget = (\<lambda>b. 2 ^ 200)\<rparr>"

definition example_config :: config where
  "example_config = \<lparr>SEGWIT_ACTIVATION_VERSION = 0, IDENTIFIER = [1, 2, 3, 4],
     PowFunc = (\<lambda>header. example_pow), MAX_TARGET = 2 ^ 224\<rparr>"

definition example_buffer :: Buffer where
  "example_buffer = [1, 0, 0, 0] @ [0, 1] @ [0] @ [7, 0, 0, 0, 0, 0, 0, 0] @ [9] @ (1 # replicate 32 5)"

definition example_share :: "(Buffer, Buffer, Buffer) share" where
  "example_share = new_share Share [1, 0, 0, 0] [0, 1] [] 7 [9] [replicate 32 5]"

section \<open>Properties of the block-notify listener\<close>

lemma lastNotifiedHash_never_assigned:
  "lastNotifiedHash (onBlockNotifyingSocketConnected ts h) = lastNotifiedHash ts"
  by (simp add: onBlockNotifyingSocketConnected_def refreshMiningInfoAsync_def)

lemma notify_counts_every_delivery:
  "lastNotifiedHash ts = None \<Longrightarrow> h \<noteq> [] \<Longrightarrow>
   refreshMiningInfoCalls (onBlockNotifyingSocketConnected ts h) = Suc (refreshMiningInfoCalls ts)"
  by (simp add: onBlockNotifyingSocketConnected_def refreshMiningInfoAsync_def)

text \<open>
  C1 (the code at the failing input): on a freshly built task server two successive
  connections that both deliver the hash \<open>00ab\<close> invoke the daemon watcher's
  refresh twice, not once: the second delivery is not suppressed, since
  \<open>lastNotifiedHash\<close> is compared but never stored.
\<close>

theorem duplicate_block_notify_refreshes_twice:
  "refreshMiningInfoCalls
     (onBlockNotifyingSocketConnected
        (onBlockNotifyingSocketConnected TaskServer_new ''00ab'') ''00ab'') = 2"
  by (simp add: onBlockNotifyingSocketConnected_def refreshMiningInfoAsync_def TaskServer_new_def)

section \<open>Properties of the peer coordinator\<close>

lemmas example_defs = example_lib_def example_store_def example_template_def example_peer_def
  example_known_def initNode_def Peer_new_def

lemmas peer_defs = handleRemember_tx_def any_pred_def Map_has_def Map_get_def Map_set_def Map_delete_def
  lookupKnownTx_def or_else_def remember_def Node_close_def firstOrDefault_def select_def where_seq_def
  cache_get_def

subsection \<open>Broadcasts and the sequence extensions\<close>

lemma foldl_send:
  "foldl (\<lambda>s p. send p (c p) s) st ps = st\<lparr>sent := sent st @ map (\<lambda>p. (p, c p)) ps\<rparr>"
  by (induction ps arbitrary: st) (simp_all add: send_def)

lemma peers_forEach_send:
  "peers_forEach st (\<lambda>p. send p (c p)) =
   st\<lparr>sent := sent st @ map (\<lambda>p. (p, c p)) (Map_values (peers st))\<rparr>"
  by (simp add: peers_forEach_def foldl_send)

lemma update_fresh: "k \<notin> fst ` set m \<Longrightarrow> AList.update k v m = m @ [(k, v)]"
  by (induction m) auto

lemma foldl_update_distinct:
  "distinct (map fst (m @ xs)) \<Longrightarrow>
   foldl (\<lambda>m x. Map_set m (fst x) (snd x)) m xs = m @ xs"
proof (induction xs arbitrary: m)
  case Nil
  then show ?case by simp
next
  case (Cons x xs)
  have fresh: "fst x \<notin> fst ` set m" using Cons.prems by auto
  have "distinct (map fst ((m @ [x]) @ xs))" using Cons.prems by simp
  from Cons.IH [OF this] fresh show ?case
    by (simp add: Map_set_def update_fresh)
qed

lemma toMap_distinct: "distinct (map fst xs) \<Longrightarrow> toMap xs fst snd = xs"
  using foldl_update_distinct [of "[]" xs] by (simp add: toMap_def)

lemma except_keyEq:
  "except xs ys keyEq = filter (\<lambda>e. fst e \<notin> fst ` set ys) xs"
  by (auto simp: except_def keyEq_def list_ex_iff intro!: filter_cong)

lemma sum_seq_sum_list: "sum_seq xs f = sum_list (map f xs)"
proof -
  have "foldl (\<lambda>acc x. acc + f x) a xs = a + sum_list (map f xs)" for a
    by (induction xs arbitrary: a) simp_all
  then show ?thesis by (simp add: sum_seq_def)
qed

subsection \<open>The cache of forgotten transactions\<close>

text \<open>
  The snapshot that a change of \<open>knownTxs\<close> pushes: the entries of the old map whose
  key the new map lacks, each with the template the old map held.
\<close>

lemma snapshot_eq:
  assumes "distinct (map fst oldValue)"
  shows "toMap (select (select (except oldValue newValue keyEq) fst) (\<lambda>h. (h, Map_get oldValue h))) fst snd
         = map (\<lambda>e. (fst e, Some (snd e))) (filter (\<lambda>e. fst e \<notin> fst ` set newValue) oldValue)"
proof -
  let ?rem = "filter (\<lambda>e. fst e \<notin> fst ` set newValue) oldValue"
  have get: "\<And>e. e \<in> set oldValue \<Longrightarrow> Map_get oldValue (fst e) = Some (snd e)"
    using assms by (simp add: Map_get_def)
  have "select (select (except oldValue newValue keyEq) fst) (\<lambda>h. (h, Map_get oldValue h))
        = map (\<lambda>e. (fst e, Some (snd e))) ?rem"
    by (simp add: select_def except_keyEq get)
  moreover have "distinct (map fst (map (\<lambda>e. (fst e, Some (snd e))) ?rem))"
    using assms by (simp add: comp_def distinct_map_filter)
  ultimately show ?thesis
    by (simp add: toMap_distinct)
qed

lemma onKnownTxsChanged_caches:
  "knownTxsCaches (onKnownTxsChanged st oldValue newValue) =
   (\<lambda>cs x. if length (cs @ [x]) > 10 then tl (cs @ [x]) else cs @ [x])
     (knownTxsCaches st)
     (toMap (select (select (except oldValue newValue keyEq) fst) (\<lambda>h. (h, Map_get oldValue h))) fst snd)"
  by (simp add: onKnownTxsChanged_def Let_def peers_forEach_send)

lemma foldl_push_bounded:
  "length cs \<le> 10 \<Longrightarrow>
   foldl (\<lambda>cs x. if length (cs @ [x]) > 10 then tl (cs @ [x]) else cs @ [x]) cs xs
   = drop (length cs + length xs - 10) (cs @ xs)"
proof (induction xs arbitrary: cs)
  case Nil
  then show ?case by simp
next
  case (Cons x xs)
  let ?push = "\<lambda>cs x. if length (cs @ [x]) > 10 then tl (cs @ [x]) else cs @ [x]"
  show ?case
  proof (cases "length cs < 10")
    case True
    with Cons.IH [of "cs @ [x]"] show ?thesis by simp
  next
    case False
    with Cons.prems have len: "length cs = 10" by simp
    then obtain c cs' where cs: "cs = c # cs'" and len': "length cs' = 9"
      by (cases cs) auto
    have "foldl ?push cs (x # xs) = foldl ?push (cs' @ [x]) xs"
      by (simp add: cs len')
    also have "\<dots> = drop (length (cs' @ [x]) + length xs - 10) ((cs' @ [x]) @ xs)"
      by (rule Cons.IH) (simp add: len')
    also have "\<dots> = drop (length cs + length (x # xs) - 10) (cs @ x # xs)"
      by (simp add: cs len')
    finally show ?thesis .
  qed
qed

lemma caches_fold:
  assumes "\<forall>c \<in> set changes. distinct (map fst (fst c))"
  shows "knownTxsCaches (foldl (\<lambda>s c. onKnownTxsChanged s (fst c) (snd c)) st changes) =
         foldl (\<lambda>cs x. if length (cs @ [x]) > 10 then tl (cs @ [x]) else cs @ [x])
           (knownTxsCaches st)
           (map (\<lambda>c. map (\<lambda>e. (fst e, Some (snd e)))
                       (filter (\<lambda>e. fst e \<notin> fst ` set (snd c)) (fst c))) changes)"
  using assms
proof (induction changes arbitrary: st)
  case Nil
  then show ?case by simp
next
  case (Cons c changes)
  then show ?case
    by (simp add: onKnownTxsChanged_caches snapshot_eq)
qed

text \<open>
  C7: \<open>knownTxsCaches\<close> never holds more than ten snapshots. Every call of the
  \<open>knownTxs\<close> listener pushes one snapshot, the removed entries keyed by hash with the
  template the old map held, and drops the oldest one when there are more than ten:
  after any run of changes the list is the last ten of the snapshots it had and the
  ones pushed since, oldest first. The changes are pairs of the old and the new map.
\<close>

theorem knownTxsCaches_keeps_last_ten:
  assumes "length (knownTxsCaches st) \<le> 10"
    and "\<forall>c \<in> set changes. distinct (map fst (fst c))"
  shows "knownTxsCaches (foldl (\<lambda>s c. onKnownTxsChanged s (fst c) (snd c)) st changes) =
           drop (length (knownTxsCaches st) + length changes - 10)
             (knownTxsCaches st @
              map (\<lambda>c. map (\<lambda>e. (fst e, Some (snd e)))
                          (filter (\<lambda>e. fst e \<notin> fst ` set (snd c)) (fst c))) changes)
         \<and> length (knownTxsCaches (foldl (\<lambda>s c. onKnownTxsChanged s (fst c) (snd c)) st changes)) \<le> 10"
proof -
  let ?snaps = "map (\<lambda>c. map (\<lambda>e. (fst e, Some (snd e)))
                          (filter (\<lambda>e. fst e \<notin> fst ` set (snd c)) (fst c))) changes"
  let ?push = "\<lambda>cs x. if length (cs @ [x]) > 10 then tl (cs @ [x]) else cs @ [x]"
  have eq: "knownTxsCaches (foldl (\<lambda>s c. onKnownTxsChanged s (fst c) (snd c)) st changes) =
      drop (length (knownTxsCaches st) + length changes - 10) (knownTxsCaches st @ ?snaps)"
  proof -
    have "knownTxsCaches (foldl (\<lambda>s c. onKnownTxsChanged s (fst c) (snd c)) st changes) =
          foldl ?push (knownTxsCaches st) ?snaps"
      by (rule caches_fold [OF assms(2)])
    also have "\<dots> = drop (length (knownTxsCaches st) + length ?snaps - 10) (knownTxsCaches st @ ?snaps)"
      by (rule foldl_push_bounded [OF assms(1)])
    finally show ?thesis by (simp only: length_map)
  qed
  moreover have "length (drop (length (knownTxsCaches st) + length changes - 10)
                   (knownTxsCaches st @ ?snaps)) \<le> 10"
    by simp
  ultimately show ?thesis by simp
qed

text \<open>
  Eleven successive changes on a coordinator with an empty cache list, the \<open>i\<close>-th
  removing the \<open>i\<close>-th of eleven keys: the snapshot of the first key is gone, the ten
  snapshots of the other keys remain, oldest first.
\<close>

theorem knownTxsCaches_keeps_last_ten_witness:
  "knownTxsCaches (foldl (\<lambda>s c. onKnownTxsChanged s (fst c) (snd c)) example_peer example_changes) =
     map (\<lambda>k. [(Str k, Some (example_template k ''00''))]) (tl example_keys)
   \<and> length (knownTxsCaches (foldl (\<lambda>s c. onKnownTxsChanged s (fst c) (snd c)) example_peer example_changes)) = 10"
  using knownTxsCaches_keeps_last_ten [of example_peer example_changes]
  by (simp add: example_changes_def example_entries_def example_keys_def example_defs)

subsection \<open>Changes of the mining transactions\<close>

lemma onMiningTxsChanged_sent:
  assumes "removed = map snd (filter (\<lambda>e. fst e \<notin> fst ` set newValue) oldValue)"
    and "removed \<noteq> []"
  shows "\<exists>remembers. sent (onMiningTxsChanged st oldValue newValue) =
           sent st @ remembers @
           map (\<lambda>p. (p, Forget_tx (map txid_or_hash removed)
                  (sum_list (map (\<lambda>tx. real (length (data tx)) / 2) removed))))
             (Map_values (peers st))"
  using assms
  by (simp add: onMiningTxsChanged_def Let_def peers_forEach_send any_nonempty_def
      select_def except_keyEq sum_seq_sum_list comp_def)

text \<open>
  C8: when the new value of \<open>miningTxs\<close> lacks keys of the old one, the listener asks
  every registered peer to send \<open>forget_tx\<close> with one identity for each removed
  template, its \<open>txid\<close> when it has a non-empty one and its \<open>hash\<close> otherwise, and
  with \<open>totalSize\<close> the sum of \<open>data.length / 2\<close> over the removed templates.
\<close>

theorem miningTxs_loss_sends_forget_tx:
  assumes "removed = map snd (filter (\<lambda>e. fst e \<notin> fst ` set newValue) oldValue)"
    and "removed \<noteq> []"
  shows "\<forall>p \<in> set (Map_values (peers st)).
           (p, Forget_tx
                 (map (\<lambda>tx. case txid tx of
                               None \<Rightarrow> hash tx
                             | Some t \<Rightarrow> if t = Str [] then hash tx else t) removed)
                 (sum_list (map (\<lambda>tx. real (length (data tx)) / 2) removed)))
           \<in> set (drop (length (sent st)) (sent (onMiningTxsChanged st oldValue newValue)))"
proof -
  have "map txid_or_hash removed =
        map (\<lambda>tx. case txid tx of None \<Rightarrow> hash tx | Some t \<Rightarrow> if t = Str [] then hash tx else t) removed"
    by (simp add: txid_or_hash_def)
  with onMiningTxsChanged_sent [OF assms, of st] show ?thesis by auto
qed

text \<open>
  Three templates leave \<open>miningTxs\<close>: one with \<open>txid = aa\<close> and \<open>hash = a9\<close>, named
  by its \<open>txid\<close>; one without \<open>txid\<close> and one with an empty \<open>txid\<close>, named by their
  \<open>hash\<close>. Their data have 200, 300 and 100 characters: both registered peers get
  \<open>forget_tx\<close> with \<open>totalSize = 300\<close>. When only the first two leave, with 200 and 300
  characters, \<open>totalSize = 250\<close>.
\<close>

theorem miningTxs_loss_sends_forget_tx_witness:
  "(0, Forget_tx [Str ''aa'', Str ''bb'', Str ''cc''] 300)
     \<in> set (sent (onMiningTxsChanged example_peer example_mining []))
   \<and> (1, Forget_tx [Str ''aa'', Str ''bb'', Str ''cc''] 300)
     \<in> set (sent (onMiningTxsChanged example_peer example_mining []))
   \<and> (0, Forget_tx [Str ''aa'', Str ''bb''] 250)
     \<in> set (sent (onMiningTxsChanged example_peer example_mining [(Str ''cc'', example_blank)]))
   \<and> (1, Forget_tx [Str ''aa'', Str ''bb''] 250)
     \<in> set (sent (onMiningTxsChanged example_peer example_mining [(Str ''cc'', example_blank)]))"
proof -
  have peers: "Map_values (peers example_peer) = [0, 1]" and sent: "sent example_peer = []"
    by (simp_all add: example_defs Map_values_def Map_set_def)
  have all: "\<forall>p \<in> set [0, 1]. (p, Forget_tx [Str ''aa'', Str ''bb'', Str ''cc''] 300)
               \<in> set (sent (onMiningTxsChanged example_peer example_mining []))"
    using miningTxs_loss_sends_forget_tx [where
        removed = "[example_segwit, example_legacy, example_blank]"
        and newValue = "[]" and oldValue = example_mining and st = example_peer]
    by (simp add: peers sent)
       (simp add: example_mining_def example_segwit_def example_legacy_def example_blank_def)
  have two: "\<forall>p \<in> set [0, 1]. (p, Forget_tx [Str ''aa'', Str ''bb''] 250)
               \<in> set (sent (onMiningTxsChanged example_peer example_mining [(Str ''cc'', example_blank)]))"
    using miningTxs_loss_sends_forget_tx [where
        removed = "[example_segwit, example_legacy]"
        and newValue = "[(Str ''cc'', example_blank)]" and oldValue = example_mining and st = example_peer]
    by (simp add: peers sent)
       (simp add: example_mining_def example_segwit_def example_legacy_def example_blank_def)
  from all two show ?thesis by simp
qed

subsection \<open>remember_tx\<close>

lemma remember_frame:
  "tag (nodes (remember st sender h tx) sender) = tag (nodes st sender)"
  "peers (remember st sender h tx) = peers st"
  "knownTxs (remember st sender h tx) = knownTxs st"
  "knownTxsCaches (remember st sender h tx) = knownTxsCaches st"
  "lookupKnownTx (remember st sender h tx) h' = lookupKnownTx st h'"
  "Map_has (rememberedTxs (nodes (remember st sender h tx) sender)) h"
  by (simp_all add: remember_def lookupKnownTx_def Map_has_def Map_set_def update_conv')


lemma remember_hashes_already:
  "todo \<noteq> [] \<Longrightarrow> any_pred txHashes (\<lambda>h'. Map_has (rememberedTxs (nodes st sender)) (Str h')) \<Longrightarrow>
   remember_hashes L sender txHashes todo st = Returned (Node_close st sender)"
  by (cases todo) simp_all



text \<open>
  With two or more hashes the first loop never completes: once the first hash is
  remembered, the test of line 59 holds in the second iteration.
\<close>

lemma remember_hashes_two_never_normal:
  "remember_hashes L sender (h1 # h2 # rest) (h1 # h2 # rest) st \<noteq> Normal st'"
proof (cases "any_pred (h1 # h2 # rest) (\<lambda>h'. Map_has (rememberedTxs (nodes st sender)) (Str h'))")
  case True
  then show ?thesis by simp
next
  case False
  show ?thesis
  proof (cases "lookupKnownTx st (Str h1)")
    case None
    with False show ?thesis by simp
  next
    case (Some knownTx)
    show ?thesis
    proof (cases "fromHex L (data knownTx)")
      case None
      with False Some show ?thesis by simp
    next
      case (Some tx)
      have "any_pred (h1 # h2 # rest)
              (\<lambda>h'. Map_has (rememberedTxs (nodes (remember st sender (Str h1) tx) sender)) (Str h'))"
        by (simp add: any_pred_def remember_frame)
      then have "remember_hashes L sender (h1 # h2 # rest) (h2 # rest) (remember st sender (Str h1) tx)
                 = Returned (Node_close (remember st sender (Str h1) tx) sender)"
        by (intro remember_hashes_already) simp_all
      with False \<open>lookupKnownTx st (Str h1) = Some knownTx\<close> Some show ?thesis by simp
    qed
  qed
qed

lemma handleRemember_tx_two_hashes_never_completes:
  "handleRemember_tx L st sender (h1 # h2 # rest) txs \<noteq> Normal st'"
proof (cases "remember_hashes L sender (h1 # h2 # rest) (h1 # h2 # rest) st")
  case (Normal st1)
  with remember_hashes_two_never_normal show ?thesis by blast
next
  case (Returned st1)
  then show ?thesis by (simp only: handleRemember_tx_def completion.case completion.distinct not_False_eq_True)
next
  case (Thrown st1)
  then show ?thesis by (simp only: handleRemember_tx_def completion.case completion.distinct not_False_eq_True)
qed

text \<open>
  C2 (the code at the failing input): the sender remembers nothing, \<open>aa\<close> and \<open>bb\<close>
  are distinct and both in \<open>knownTxs\<close>; \<open>remember_tx([aa, bb], [])\<close> remembers
  \<open>aa\<close> and then closes the sender, which the claim says is not disconnected.
\<close>

theorem remember_tx_two_fresh_hashes_disconnects:
  "handleRemember_tx example_lib example_known 0 [''aa'', ''bb''] [] =
     Returned (Node_close (remember example_known 0 (Str ''aa'') ''01'') 0)
   \<and> closed (nodes (Node_close (remember example_known 0 (Str ''aa'') ''01'') 0) 0)
   \<and> rememberedTxs (nodes example_known 0) = []
   \<and> Map_has (knownTxs example_known) (Str ''aa'') \<and> Map_has (knownTxs example_known) (Str ''bb'')"
  by (simp add: example_defs peer_defs)

subsection \<open>The second loop\<close>

text \<open>
  The key of line 78 is a \<open>Buffer\<close> that \<open>getHash\<close> has just created, so no map has
  it: as long as the keys of the sender's map are strings or objects created before,
  the test never holds and the second loop runs to its end.
\<close>

lemma remember_txs_completes:
  assumes "\<forall>n b. Map_has (rememberedTxs (nodes st sender)) (Buf n b) \<longrightarrow> n < allocated st"
  shows "\<exists>st' known'. remember_txs L sender txs known st = Normal (st', known')"
  using assms
proof (induction txs arbitrary: known st)
  case Nil
  then show ?case by simp
next
  case (Cons tx txs)
  let ?k = "Buf (allocated st) (getHash L tx)"
  let ?st0 = "st\<lparr>allocated := Suc (allocated st)\<rparr>"
  have no: "\<not> Map_has (rememberedTxs (nodes ?st0 sender)) ?k"
    using Cons.prems by auto
  have "\<forall>n b. Map_has (rememberedTxs (nodes (remember ?st0 sender ?k tx) sender)) (Buf n b)
          \<longrightarrow> n < allocated (remember ?st0 sender ?k tx)"
    using Cons.prems
    by (auto simp: remember_def Map_has_def Map_set_def update_conv' less_Suc_eq split: if_splits)
  from Cons.IH [OF this] no show ?case
    by (simp add: Let_def)
qed

text \<open>The same transaction twice in one message: it is remembered twice, under two keys.\<close>

lemma remember_tx_same_transaction_twice:
  "handleRemember_tx example_lib example_peer 0 [] [''01'', ''01''] =
     Normal (knownTxs_set
       (remember (remember (example_peer\<lparr>allocated := 2\<rparr>) 0 (Buf 0 [48, 49]) ''01'') 0 (Buf 1 [48, 49]) ''01'')
       [(Buf 0 [48, 49], \<lparr>txid = Some (Buf 0 [48, 49]), hash = Buf 0 [48, 49], data = ''01''\<rparr>),
        (Buf 1 [48, 49], \<lparr>txid = Some (Buf 1 [48, 49]), hash = Buf 1 [48, 49], data = ''01''\<rparr>)])"
  by (simp add: example_defs peer_defs Let_def numeral_2_eq_2)

subsection \<open>The lookup of a hash\<close>


text \<open>On any state the snapshots are scanned in array order: the first that has the hash decides.\<close>

lemma lookupKnownTx_first_hit:
  assumes "Map_get (knownTxs st) h = None"
    and "knownTxsCaches st = older @ c # newer"
    and "\<forall>c' \<in> set older. \<not> Map_has c' h"
    and "Map_has c h"
  shows "lookupKnownTx st h = cache_get c h"
proof -
  have "filter (\<lambda>cache. Map_has cache h) (older @ c # newer) =
        c # filter (\<lambda>cache. Map_has cache h) newer"
    using assms(3,4) by (simp add: filter_empty_conv)
  with assms(1,2) show ?thesis
    by (simp add: lookupKnownTx_def or_else_def where_seq_def select_def firstOrDefault_def)
qed




subsection \<open>What every state of a coordinator satisfies\<close>







lemma remember_hashes_frame:
  "knownTxs (state_of (remember_hashes L sender txHashes todo st)) = knownTxs st
   \<and> knownTxsCaches (state_of (remember_hashes L sender txHashes todo st)) = knownTxsCaches st"
proof (induction todo arbitrary: st)
  case Nil
  then show ?case by simp
next
  case (Cons h todo)
  from Cons.IH show ?case
    by (simp add: Node_close_def remember_frame split: option.splits)
qed









subsection \<open>The bound on the cache list is kept by every operation\<close>

lemma knownTxs_set_bound:
  "length (knownTxsCaches st) \<le> 10 \<Longrightarrow> length (knownTxsCaches (knownTxs_set st newValue)) \<le> 10"
  by (simp add: knownTxs_set_def onKnownTxsChanged_caches)

lemma onMiningTxsChanged_caches:
  "knownTxsCaches (onMiningTxsChanged st oldValue newValue) = knownTxsCaches st"
  by (simp add: onMiningTxsChanged_def Let_def peers_forEach_send)

lemma remember_txs_caches:
  "knownTxsCaches (fst (state_of (remember_txs L sender txs known st))) = knownTxsCaches st"
proof (induction txs arbitrary: known st)
  case Nil
  then show ?case by simp
next
  case (Cons tx txs)
  from Cons.IH show ?case
    by (simp add: Node_close_def Let_def remember_frame)
qed

lemma handleRemember_tx_bound:
  assumes "length (knownTxsCaches st) \<le> 10"
  shows "length (knownTxsCaches (state_of (handleRemember_tx L st sender txHashes txs))) \<le> 10"
proof (cases "remember_hashes L sender txHashes txHashes st")
  case (Normal st1)
  with remember_hashes_frame [of L sender txHashes txHashes st] assms
  have b1: "length (knownTxsCaches st1) \<le> 10" by simp
  show ?thesis
  proof (cases "remember_txs L sender txs (knownTxs st1) st1")
    case (Normal p)
    with remember_txs_caches [of L sender txs "knownTxs st1" st1] b1
    have "length (knownTxsCaches (fst p)) \<le> 10" by simp
    with Normal \<open>remember_hashes L sender txHashes txHashes st = Normal st1\<close> show ?thesis
      by (auto simp: handleRemember_tx_def knownTxs_set_bound split: prod.splits)
  next
    case (Returned p)
    with remember_txs_caches [of L sender txs "knownTxs st1" st1] b1
    have "length (knownTxsCaches (fst p)) \<le> 10" by simp
    with Returned \<open>remember_hashes L sender txHashes txHashes st = Normal st1\<close> show ?thesis
      by (auto simp: handleRemember_tx_def split: prod.splits)
  next
    case (Thrown p)
    with remember_txs_caches [of L sender txs "knownTxs st1" st1] b1
    have "length (knownTxsCaches (fst p)) \<le> 10" by simp
    with Thrown \<open>remember_hashes L sender txHashes txHashes st = Normal st1\<close> show ?thesis
      by (auto simp: handleRemember_tx_def split: prod.splits)
  qed
next
  case (Returned st1)
  with remember_hashes_frame [of L sender txHashes txHashes st] assms show ?thesis
    by (simp add: handleRemember_tx_def)
next
  case (Thrown st1)
  with remember_hashes_frame [of L sender txHashes txHashes st] assms show ?thesis
    by (simp add: handleRemember_tx_def)
qed

lemma updateGbt_bound:
  "length (knownTxsCaches st) \<le> 10 \<Longrightarrow> length (knownTxsCaches (updateGbt st transactions)) \<le> 10"
  by (simp add: updateGbt_def Let_def knownTxs_set_bound miningTxs_set_def onMiningTxsChanged_caches)

lemma initNode_handleNodeVersion_caches:
  "knownTxsCaches (initNode st node) = knownTxsCaches st"
  "knownTxsCaches (handleNodeVersion st sender) = knownTxsCaches st"
  by (simp_all add: initNode_def handleNodeVersion_def send_def)

section \<open>Properties of shares\<close>

subsection \<open>Evaluating the bignum functions\<close>

lemma bit_length_numeral [simp]:
  "bit_length (numeral k) = Suc (bit_length (numeral k div 2))"
  by (subst bit_length.simps) simp

lemma bit_length_0 [simp]: "bit_length 0 = 0"
  by (simp add: bit_length.simps)

lemma bit_length_1 [simp]: "bit_length (Suc 0) = Suc 0"
  by (simp add: bit_length.simps)

lemma be_nat_zeros:
  "foldl (\<lambda>acc b. 256 * acc + unat b) a (replicate n (0::byte)) = a * 256 ^ n"
  by (induction n arbitrary: a) simp_all

lemma example_pow_value: "le_nat example_pow = 2 ^ 200 + 1"
  by (simp add: example_pow_def le_nat_def be_nat_def be_nat_zeros)

lemma toNumber_example: "BigNum_toNumber (2 ^ 200 + 1) = 2 ^ 200"
  by (simp add: BigNum_toNumber_def Let_def)


lemmas share_defs = init_def derive_def getRefHash_def chosenLink_def isSegwitActivated_def aggregate_def
  new_share_def class_VERSION_def Let_def

lemmas example_share_defs = example_modules_def example_config_def example_share_def take_exactly_def
  example_readList_def example_readNumber_def example_writeList_def

lemma pow_read: "BigNum_fromBuffer_le 32 example_pow = Some (2 ^ 200 + 1)"
  by (simp add: BigNum_fromBuffer_le_def chunks_def example_pow_def be_nat_def be_nat_zeros)

lemma init_example:
  "init example_config example_modules example_share =
     Inr (True, example_share\<lparr>share_hash := Some ''00'', previousHash := Some ''00'',
        newScript := Some [0, 1], target := Some (2 ^ 200),
        gentxHash := Some (take 32 ([1, 2, 3, 4, 0, 1] @ replicate 32 0)), newTxHashes := Some [''00''],
        validity := True\<rparr>)"
  by (simp add: share_defs example_share_defs pow_read [simplified] toNumber_example [simplified])


subsection \<open>The generation transaction prefix\<close>

text \<open>
  The literal that the module asserts is the layout the module computes: the length
  byte and the donation script, eight zero bytes, and the three bytes
  \<open>2a 6a 28\<close> of the var-string header.
\<close>

lemma GENTX_BEFORE_REFHASH_layout:
  "GENTX_BEFORE_REFHASH =
     of_nat (length DONATION_SCRIPT) # DONATION_SCRIPT @ [0, 0, 0, 0, 0, 0, 0, 0] @ [0x2a, 0x6a, 0x28]"
  by (simp add: GENTX_BEFORE_REFHASH_def DONATION_SCRIPT_def hex_digit_def)

subsection \<open>Validation\<close>

lemma collectRefs_eq:
  "collectRefs refs n =
     (if \<forall>r \<in> set refs. fst r < 110 then Inr (n \<union> {tc. (0, tc) \<in> set refs})
      else Inl AssertionError)"
proof (induction refs arbitrary: n)
  case Nil
  then show ?case by simp
next
  case (Cons r refs)
  obtain sc tc where r: "r = (sc, tc)" by (cases r)
  show ?case
    unfolding r using Cons.IH by (auto simp: Cons.IH)
qed

lemma BigNum_fromBuffer_le_32:
  "length buf = 32 \<Longrightarrow> BigNum_fromBuffer_le 32 buf = Some (le_nat buf)"
  by (simp add: BigNum_fromBuffer_le_def chunks_def le_nat_def)

lemma derive_fields:
  assumes "derive C M s = Inr (s1, mroot)"
  shows "validity s1 = validity s \<and> target s1 = Some (bitsToTarget M (bits M (info s)))
       \<and> minHeader s1 = minHeader s \<and> info s1 = info s \<and> refMerkleLink s1 = refMerkleLink s
       \<and> lastTxoutNonce s1 = lastTxoutNonce s \<and> hashLink s1 = hashLink s
       \<and> merkleLink s1 = merkleLink s"
  using assms by (auto simp: derive_def Let_def split: option.splits sum.splits)

lemma derive_root:
  assumes "derive C M s = Inr (s1, mroot)"
  shows "\<exists>gentx link.
           check M (hashLink s)
             (getRefHash C M (info s) (refMerkleLink s) @ BigNum_toBuffer_le 8 (lastTxoutNonce s) @
              replicate 4 0) GENTX_BEFORE_REFHASH = Some gentx
         \<and> chosenLink C M s = Inr link
         \<and> mroot = aggregate link gentx (\<lambda>c n. sha256d M (c @ n))"
  using assms by (auto simp: derive_def Let_def split: option.splits sum.splits)

lemma init_cases:
  "init C M s =
     (if \<exists>r \<in> set (extractTransactionHashRefs M (info s)). \<not> fst r < 110 then Inl AssertionError
      else if card {tc. (0, tc) \<in> set (extractTransactionHashRefs M (info s))}
              \<noteq> length (newTransactionHashes M (info s)) then Inr (False, s)
      else (case derive C M s of
              Inl e \<Rightarrow> Inl e
            | Inr (s1, merkleRoot) \<Rightarrow>
                if bitsToTarget M (bits M (info s)) > MAX_TARGET C then Inr (False, s1)
                else (case BigNum_fromBuffer_le 32
                             (PowFunc C (buildHeader M (minHeader s) merkleRoot)) of
                        None \<Rightarrow> Inl RangeError
                      | Some pow \<Rightarrow>
                          if BigNum_toNumber pow > bitsToTarget M (bits M (info s))
                          then Inr (False, s1)
                          else Inr (True, s1\<lparr>validity := True\<rparr>))))"
  by (simp add: init_def collectRefs_eq)

text \<open>
  What a return of \<open>true\<close> establishes: the share is marked valid; the
  proof-of-work hash of the full header, read as an integer by \<open>BigNum.fromBuffer\<close>
  and converted to a JavaScript number by \<open>toNumber\<close>, is at most the target; the
  target is at most \<open>MAX_TARGET\<close>; and the number of distinct \<open>txCount\<close> among the
  hash references with \<open>shareCount = 0\<close> is the length of \<open>newTransactionHashes\<close>.
  The comparison of line 81 is between doubles, not between the integers.
\<close>

lemma init_returns_true:
  assumes "init C M s = Inr (True, s')"
  shows "\<exists>gentx link pow.
           check M (hashLink s)
             (getRefHash C M (info s) (refMerkleLink s) @ BigNum_toBuffer_le 8 (lastTxoutNonce s) @
              replicate 4 0) GENTX_BEFORE_REFHASH = Some gentx
         \<and> chosenLink C M s = Inr link
         \<and> BigNum_fromBuffer_le 32
              (PowFunc C (buildHeader M (minHeader s) (aggregate link gentx (\<lambda>c n. sha256d M (c @ n)))))
             = Some pow
         \<and> BigNum_toNumber pow \<le> bitsToTarget M (bits M (info s))
         \<and> target s' = Some (bitsToTarget M (bits M (info s)))
         \<and> bitsToTarget M (bits M (info s)) \<le> MAX_TARGET C
         \<and> card {txCount. (0, txCount) \<in> set (extractTransactionHashRefs M (info s))}
             = length (newTransactionHashes M (info s))
         \<and> validity s'"
proof -
  from assms have dedup: "card {txCount. (0, txCount) \<in> set (extractTransactionHashRefs M (info s))}
             = length (newTransactionHashes M (info s))"
    by (auto simp: init_cases split: if_splits)
  from assms obtain s1 mroot where d: "derive C M s = Inr (s1, mroot)"
    by (auto simp: init_cases split: if_splits sum.splits)
  note f = derive_fields [OF d]
  from assms d f have max: "bitsToTarget M (bits M (info s)) \<le> MAX_TARGET C"
    by (auto simp: init_cases split: if_splits)
  from assms d f max obtain pow where
    p: "BigNum_fromBuffer_le 32 (PowFunc C (buildHeader M (minHeader s) mroot)) = Some pow"
    by (auto simp: init_cases split: if_splits option.splits)
  from assms d f max p have le: "BigNum_toNumber pow \<le> bitsToTarget M (bits M (info s))"
    and res: "s' = s1\<lparr>validity := True\<rparr>"
    by (auto simp: init_cases split: if_splits)
  from derive_root [OF d] obtain gentx link where
    "check M (hashLink s)
       (getRefHash C M (info s) (refMerkleLink s) @ BigNum_toBuffer_le 8 (lastTxoutNonce s) @
        replicate 4 0) GENTX_BEFORE_REFHASH = Some gentx"
    "chosenLink C M s = Inr link"
    "mroot = aggregate link gentx (\<lambda>c n. sha256d M (c @ n))"
    by blast
  with dedup max p le res f show ?thesis by auto
qed

text \<open>
  C3 (the code at the failing input): the example share has one hash reference
  \<open>(0, 0)\<close>, one new transaction hash and the target \<open>2^200\<close>, below \<open>MAX_TARGET\<close>;
  the proof-of-work hash of its header, 32 bytes, read as a little-endian integer is
  \<open>2^200 + 1\<close>, above the target. \<open>init\<close> returns \<open>true\<close> and sets \<open>validity\<close> all
  the same: \<open>toNumber\<close> rounds the hash to the double \<open>2^200\<close>, which is not above
  the target.
\<close>

theorem init_accepts_pow_above_target:
  "\<not> isl (init example_config example_modules example_share)
   \<and> validity (snd (projr (init example_config example_modules example_share)))
   \<and> target (snd (projr (init example_config example_modules example_share))) = Some (2 ^ 200)
   \<and> length (PowFunc example_config (buildHeader example_modules (minHeader example_share) [])) = 32
   \<and> le_nat (PowFunc example_config (buildHeader example_modules (minHeader example_share) [])) = 2 ^ 200 + 1
   \<and> \<not> real (2 ^ 200 + 1) \<le> 2 ^ 200
   \<and> BigNum_toNumber (2 ^ 200 + 1) = 2 ^ 200"
proof -
  have pow: "PowFunc example_config header = example_pow" for header
    by (simp add: example_config_def)
  have len: "length example_pow = 32"
    by (simp add: example_pow_def)
  show ?thesis
    by (simp add: init_example pow len example_pow_value toNumber_example [simplified])
qed







text \<open>
  C9: for a version other than 16 and 17 the parser returns \<open>null\<close>; the reader is
  as it was, so no field was read, and nothing is thrown.
\<close>

theorem unknown_version_returns_null:
  "version \<noteq> 16 \<Longrightarrow> version \<noteq> 17 \<Longrightarrow> fromBufferReader C M version reader = Inr (None, reader)"
  by (simp add: fromBufferReader_def ShareVersionMapper_def)

text \<open>Versions 15 and 18.\<close>

theorem unknown_version_returns_null_witness:
  "fromBufferReader example_config example_modules 15 example_buffer = Inr (None, example_buffer)
   \<and> fromBufferReader example_config example_modules 18 [] = Inr (None, [])"
  using unknown_version_returns_null [of 15 example_config example_modules example_buffer]
    unknown_version_returns_null [of 18 example_config example_modules "[]"]
  by simp

subsection \<open>Segwit activation\<close>

lemma derive_ignores_info_reader:
  "derive C (M\<lparr>ShareInfo_fromBufferReader := f\<rparr>) s = derive C M s"
  by (simp add: derive_def getRefHash_def chosenLink_def cong: if_cong option.case_cong sum.case_cong)

lemma init_ignores_info_reader:
  "init C (M\<lparr>ShareInfo_fromBufferReader := f\<rparr>) s = init C M s"
  by (simp add: init_def derive_ignores_info_reader cong: if_cong option.case_cong sum.case_cong)

text \<open>
  C10: with \<open>SEGWIT_ACTIVATION_VERSION\<close> at most 0, \<open>isSegwitActivated\<close> is false of
  every version, \<open>init\<close> takes the share's own \<open>merkleLink\<close>, and the parser reads
  the share info as it does with the segwit flag off; \<open>isSegwitActivated\<close> holds only
  under a positive \<open>SEGWIT_ACTIVATION_VERSION\<close>; the default value is 0.
\<close>

theorem segwit_off_by_default:
  "(SEGWIT_ACTIVATION_VERSION C \<le> 0 \<longrightarrow>
      \<not> isSegwitActivated C version
      \<and> chosenLink C M s = Inr (merkleLink s)
      \<and> fromBufferReader C M version reader =
          fromBufferReader C (M\<lparr>ShareInfo_fromBufferReader :=
             (\<lambda>b segwit. ShareInfo_fromBufferReader M b False)\<rparr>) version reader)
   \<and> (isSegwitActivated C version \<longrightarrow> 0 < SEGWIT_ACTIVATION_VERSION C)
   \<and> \<not> isSegwitActivated (default_config ident pow) version"
  by (simp add: isSegwitActivated_def chosenLink_def default_config_def fromBufferReader_def
      init_ignores_info_reader cong: if_cong option.case_cong sum.case_cong)

text \<open>The example configuration has the default 0; with 17 instead, version 17 is activated and 16 is not.\<close>

theorem segwit_off_by_default_witness:
  "\<not> isSegwitActivated example_config 17
   \<and> chosenLink example_config example_modules example_share = Inr [replicate 32 5]
   \<and> isSegwitActivated (example_config\<lparr>SEGWIT_ACTIVATION_VERSION := 17\<rparr>) 17
   \<and> \<not> isSegwitActivated (example_config\<lparr>SEGWIT_ACTIVATION_VERSION := 17\<rparr>) 16"
proof -
  have off: "SEGWIT_ACTIVATION_VERSION example_config \<le> 0"
    by (simp add: example_config_def)
  have on: "isSegwitActivated (example_config\<lparr>SEGWIT_ACTIVATION_VERSION := 17\<rparr>) 17
      \<and> \<not> isSegwitActivated (example_config\<lparr>SEGWIT_ACTIVATION_VERSION := 17\<rparr>) 16"
    by (simp add: isSegwitActivated_def)
  from off on
    segwit_off_by_default [where C = example_config and version = 17 and M = example_modules
      and s = example_share]
    segwit_off_by_default [where C = "example_config\<lparr>SEGWIT_ACTIVATION_VERSION := 17\<rparr>"
      and version = 17]
  show ?thesis
    by (simp add: example_share_def new_share_def)
qed


subsection \<open>Parsing and serialization\<close>

lemma init_keeps_fields:
  assumes "init C M s = Inr (ok, s')"
  shows "minHeader s' = minHeader s \<and> info s' = info s \<and> refMerkleLink s' = refMerkleLink s
       \<and> lastTxoutNonce s' = lastTxoutNonce s \<and> hashLink s' = hashLink s
       \<and> merkleLink s' = merkleLink s"
proof (cases "derive C M s")
  case (Inl e)
  with assms show ?thesis by (auto simp: init_cases split: if_splits)
next
  case (Inr p)
  obtain s1 m1 where p: "p = (s1, m1)" by (cases p)
  from assms Inr p derive_fields [of C M s s1 m1] show ?thesis
    by (auto simp: init_cases split: if_splits option.splits)
qed

text \<open>
  C4: \<open>toBuffer\<close> writes the header, the share info, the reference merkle link, the
  eight little-endian bytes of \<open>lastTxoutNonce\<close>, the hash link and the merkle link,
  in the order in which the parser reads them. So when each reader of the modules
  outside the sources is undone by its writer (what was read, written again and
  followed by the bytes left, is the input), a buffer that parses to a share is
  that share's serialization followed by the bytes the parser left; a buffer that
  is consumed whole is the serialization, byte for byte.
\<close>

theorem parse_serialize_roundtrip:
  assumes hdr: "\<forall>b h r. SmallBlockHeader_fromBufferReader M b = Some (h, r) \<longrightarrow>
                  SmallBlockHeader_toBuffer M h @ r = b"
    and inf: "\<forall>b segwit i r. ShareInfo_fromBufferReader M b segwit = Some (i, r) \<longrightarrow>
                  ShareInfo_toBuffer M i @ r = b"
    and lst: "\<forall>b l r. readList M 32 b = Some (l, r) \<longrightarrow> writeList M l @ r = b"
    and num: "\<forall>b n r. readNumber M 8 b = Some (n, r) \<longrightarrow> BigNum_toBuffer_le 8 n @ r = b"
    and hl: "\<forall>b h r. HashLink_fromBufferReader M b = Some (h, r) \<longrightarrow>
                  HashLink_toBuffer M h @ r = b"
    and parse: "fromBufferReader C M version b = Inr (Some s, rest)"
  shows "toBuffer M s @ rest = b"
proof -
  from parse obtain cls where cls: "ShareVersionMapper version = Some cls"
    by (auto simp: fromBufferReader_def split: option.splits)
  from parse cls obtain h r1 where r1: "SmallBlockHeader_fromBufferReader M b = Some (h, r1)"
    by (auto simp: fromBufferReader_def split: option.splits)
  from parse cls r1 obtain i r2 where
    r2: "ShareInfo_fromBufferReader M r1 (isSegwitActivated C (class_VERSION cls)) = Some (i, r2)"
    by (auto simp: fromBufferReader_def split: option.splits)
  from parse cls r1 r2 obtain rml r3 where r3: "readList M 32 r2 = Some (rml, r3)"
    by (auto simp: fromBufferReader_def split: option.splits)
  from parse cls r1 r2 r3 obtain n r4 where r4: "readNumber M 8 r3 = Some (n, r4)"
    by (auto simp: fromBufferReader_def split: option.splits)
  from parse cls r1 r2 r3 r4 obtain l r5 where r5: "HashLink_fromBufferReader M r4 = Some (l, r5)"
    by (auto simp: fromBufferReader_def split: option.splits)
  from parse cls r1 r2 r3 r4 r5 obtain ml r6 where r6: "readList M 32 r5 = Some (ml, r6)"
    by (auto simp: fromBufferReader_def split: option.splits)
  from parse cls r1 r2 r3 r4 r5 r6 obtain ok where
    i: "init C M (new_share cls h i rml n l ml) = Inr (ok, s)" and rest: "rest = r6"
    by (auto simp: fromBufferReader_def split: sum.splits)
  from init_keeps_fields [OF i] have fields:
    "minHeader s = h" "info s = i" "refMerkleLink s = rml" "lastTxoutNonce s = n"
    "hashLink s = l" "merkleLink s = ml"
    by (simp_all add: new_share_def)
  have "b = SmallBlockHeader_toBuffer M h @ r1" using hdr r1 by metis
  also have "r1 = ShareInfo_toBuffer M i @ r2" using inf r2 by metis
  also have "r2 = writeList M rml @ r3" using lst r3 by metis
  also have "r3 = BigNum_toBuffer_le 8 n @ r4" using num r4 by metis
  also have "r4 = HashLink_toBuffer M l @ r5" using hl r5 by metis
  also have "r5 = writeList M ml @ r6" using lst r6 by metis
  finally show ?thesis
    by (simp add: toBuffer_def fields rest)
qed


lemma concat_chunks_take:
  "concat (map (\<lambda>i. take n (drop (i * n) xs)) [0..<j]) = take (j * n) xs"
proof (induction j)
  case 0
  then show ?case by simp
next
  case (Suc j)
  have "take (Suc j * n) xs = take (j * n + n) xs" by (simp add: add.commute)
  also have "\<dots> = take (j * n) xs @ take n (drop (j * n) xs)" by (rule take_add)
  finally show ?case using Suc.IH by simp
qed

lemma concat_chunks: "length xs = k * n \<Longrightarrow> 0 < n \<Longrightarrow> concat (chunks n xs) = xs"
  by (simp add: chunks_def concat_chunks_take)

lemma length_chunks: "length (chunks n xs) = length xs div n"
  by (simp add: chunks_def)

lemma chunks_single: "length xs = n \<Longrightarrow> 0 < n \<Longrightarrow> chunks n xs = [xs]"
  by (simp add: chunks_def)

lemma le_nat_Nil: "le_nat [] = 0"
  by (simp add: le_nat_def be_nat_def)

lemma le_nat_Cons: "le_nat (b # bs) = unat b + 256 * le_nat bs"
  by (simp add: le_nat_def be_nat_def)

lemma le_nat_less: "le_nat bs < 256 ^ length bs"
proof (induction bs)
  case Nil
  then show ?case by (simp add: le_nat_Nil)
next
  case (Cons b bs)
  have "unat b < 256" using unsigned_less [of b] by simp
  with Cons.IH show ?case by (simp add: le_nat_Cons)
qed

lemma bytes_of_le_nat:
  "map (\<lambda>i. of_nat (le_nat bs div 256 ^ i mod 256)) [0..<length bs] = bs"
proof (induction bs)
  case Nil
  then show ?case by simp
next
  case (Cons b bs)
  have b: "unat b < 256" using unsigned_less [of b] by simp
  have tl: "(unat b + 256 * le_nat bs) div (256 * 256 ^ i) = le_nat bs div 256 ^ i" for i
  proof -
    have "(unat b + 256 * le_nat bs) div 256 = le_nat bs" using b by simp
    then show ?thesis by (subst div_mult2_eq) simp
  qed
  have "[0..<Suc (length bs)] = 0 # [Suc 0..<Suc (length bs)]"
    by (rule upt_conv_Cons) simp
  then have "[0..<length (b # bs)] = 0 # map Suc [0..<length bs]"
    by (simp only: map_Suc_upt length_Cons)
  then show ?case
    using Cons.IH b by (simp add: le_nat_Cons tl comp_def del: upt_Suc)
qed

lemma bit_length_le: "v < 2 ^ k \<Longrightarrow> bit_length v \<le> k"
proof (induction k arbitrary: v)
  case 0
  then show ?case by (simp add: bit_length.simps)
next
  case (Suc k)
  show ?case
  proof (cases "v = 0")
    case True
    then show ?thesis by (simp add: bit_length.simps)
  next
    case False
    from Suc.prems have "v div 2 < 2 ^ k" by simp
    from Suc.IH [OF this] False show ?thesis
      by (subst bit_length.simps) simp
  qed
qed

lemma BigNum_toBuffer_le_8:
  assumes "v < 2 ^ 64"
  shows "BigNum_toBuffer_le 8 v = map (\<lambda>i. of_nat (v div 256 ^ i mod 256)) [0..<8]"
proof -
  have "bit_length v \<le> 64" using assms by (rule bit_length_le)
  then have len: "(max 1 ((bit_length v + 3) div 4) + 2 * 8 - 1) div (2 * 8) * 8 = (8::nat)"
    by (simp add: max_def) arith
  have "length (nat_to_be 8 v) = 8" by (simp add: nat_to_be_def)
  then have "chunks 8 (nat_to_be 8 v) = [nat_to_be 8 v]" by (simp add: chunks_single)
  with len show ?thesis
    by (simp add: BigNum_toBuffer_le_def Let_def nat_to_be_def)
qed

lemma take_exactly_exact: "take_exactly n b = Some (h, r) \<Longrightarrow> h @ r = b"
  by (auto simp: take_exactly_def split: if_splits)

lemma example_list_exact:
  assumes "example_readList 32 b = Some (l, r)"
  shows "example_writeList l @ r = b"
proof -
  from assms obtain n r0 where b: "b = n # r0" and len: "unat n * 32 \<le> length r0"
    and l: "l = chunks 32 (take (unat n * 32) r0)" and r: "r = drop (unat n * 32) r0"
    by (auto simp: example_readList_def split: list.splits if_splits)
  have "length (take (unat n * 32) r0) = unat n * 32" using len by simp
  then have "concat l = take (unat n * 32) r0" and "length l = unat n"
    unfolding l by (simp_all add: concat_chunks length_chunks del: length_take)
  then show ?thesis
    by (simp add: example_writeList_def b r)
qed

lemma example_number_exact:
  assumes "example_readNumber 8 b = Some (n, r)"
  shows "BigNum_toBuffer_le 8 n @ r = b"
proof -
  from assms have len: "8 \<le> length b" and n: "n = le_nat (take 8 b)" and r: "r = drop 8 b"
    by (auto simp: example_readNumber_def split: if_splits)
  have l8: "length (take 8 b) = 8" using len by simp
  have "n < 256 ^ 8" unfolding n using le_nat_less [of "take 8 b"] l8 by simp
  then have "n < 2 ^ 64" by simp
  then have "BigNum_toBuffer_le 8 n = map (\<lambda>i. of_nat (n div 256 ^ i mod 256)) [0..<length (take 8 b)]"
    using l8 by (simp only: BigNum_toBuffer_le_8)
  also have "\<dots> = take 8 b" unfolding n by (rule bytes_of_le_nat)
  finally show ?thesis by (simp add: r)
qed

text \<open>
  The example buffer parses with version 16, with nothing left, to the valid example
  share, which serializes to the buffer; the example readers are undone by their
  writers.
\<close>

theorem parse_serialize_roundtrip_witness:
  "fromBufferReader example_config example_modules 16 example_buffer =
     Inr (Some (snd (projr (init example_config example_modules example_share))), [])
   \<and> toBuffer example_modules (snd (projr (init example_config example_modules example_share)))
       = example_buffer"
proof -
  have parse: "fromBufferReader example_config example_modules 16 example_buffer =
     Inr (Some (snd (projr (init example_config example_modules example_share))), [])"
  proof -
    have reads: "take_exactly 4 example_buffer = Some ([1, 0, 0, 0], drop 4 example_buffer)"
      "take_exactly 2 (drop 4 example_buffer) = Some ([0, 1], drop 6 example_buffer)"
      "example_readList 32 (drop 6 example_buffer) = Some ([], drop 7 example_buffer)"
      "example_readNumber 8 (drop 7 example_buffer) = Some (7, drop 15 example_buffer)"
      "take_exactly (Suc 0) (drop 15 example_buffer) = Some ([9], drop 16 example_buffer)"
      "example_readList 32 (drop 16 example_buffer) = Some ([replicate 32 5], [])"
      by (simp_all add: example_buffer_def take_exactly_def example_readList_def example_readNumber_def
          chunks_def le_nat_def be_nat_def)
    have fields: "SmallBlockHeader_fromBufferReader example_modules = take_exactly 4"
      "ShareInfo_fromBufferReader example_modules = (\<lambda>b segwit. take_exactly 2 b)"
      "readList example_modules = example_readList"
      "readNumber example_modules = example_readNumber"
      "HashLink_fromBufferReader example_modules = take_exactly (Suc 0)"
      by (simp_all add: example_modules_def)
    show ?thesis
      by (simp add: fromBufferReader_def ShareVersionMapper_def fields reads
          example_share_def [symmetric] init_example)
  qed
  have "toBuffer example_modules (snd (projr (init example_config example_modules example_share))) @ []
        = example_buffer"
  proof (rule parse_serialize_roundtrip [OF _ _ _ _ _ parse])
    show "\<forall>b h r. SmallBlockHeader_fromBufferReader example_modules b = Some (h, r) \<longrightarrow>
            SmallBlockHeader_toBuffer example_modules h @ r = b"
      by (simp add: example_modules_def take_exactly_exact)
    show "\<forall>b segwit i r. ShareInfo_fromBufferReader example_modules b segwit = Some (i, r) \<longrightarrow>
            ShareInfo_toBuffer example_modules i @ r = b"
      by (simp add: example_modules_def take_exactly_exact)
    show "\<forall>b l r. readList example_modules 32 b = Some (l, r) \<longrightarrow> writeList example_modules l @ r = b"
      by (simp add: example_modules_def example_list_exact)
    show "\<forall>b n r. readNumber example_modules 8 b = Some (n, r) \<longrightarrow> BigNum_toBuffer_le 8 n @ r = b"
      by (simp add: example_modules_def example_number_exact)
    show "\<forall>b h r. HashLink_fromBufferReader example_modules b = Some (h, r) \<longrightarrow>
            HashLink_toBuffer example_modules h @ r = b"
      by (simp add: example_modules_def take_exactly_exact)
  qed
  with parse show ?thesis by simp
qed

end
